theory Spec2Isabelle
  imports Complex_Main
begin

section \<open>Numbers and vectors\<close>

text \<open>
  JavaScript numbers are idealised as real numbers: rounding, signed zeros and the
  32-bit storage of vertex buffers are left out. A computation that leaves the finite
  numbers in the source (a division by zero, a read of a missing array element, which
  yield NaN or an infinity and let the source carry on) is an explicit outcome of the
  functions below, never an unspecified real.
\<close>

datatype error = TypeError | NonFinite | LoadFailure string | SimplifyFailure string

text \<open>
  \<open>TypeError\<close> is the exception the source raises when it calls a method on
  \<open>undefined\<close>. \<open>NonFinite\<close> is not an exception: it marks the runs in
  which the source goes on with NaN or infinite coordinates. \<open>LoadFailure\<close> and
  \<open>SimplifyFailure\<close> are the rejections and exceptions of the asset loaders and of
  the simplification modifier.
\<close>

text \<open>The part of \<open>THREE.Vector3\<close> the source uses.\<close>

datatype vec3 = Vector3 (vx: real) (vy: real) (vz: real)

definition length_v :: "vec3 \<Rightarrow> real" where
  "length_v v = sqrt (vx v * vx v + vy v * vy v + vz v * vz v)"

definition multiplyScalar :: "vec3 \<Rightarrow> real \<Rightarrow> vec3" where
  "multiplyScalar v s = Vector3 (vx v * s) (vy v * s) (vz v * s)"

definition divideScalar :: "vec3 \<Rightarrow> real \<Rightarrow> vec3" where
  "divideScalar v s = multiplyScalar v (1 / s)"

definition normalize :: "vec3 \<Rightarrow> vec3" where
  \<comment> \<open>\<open>this.divideScalar(this.length() || 1)\<close>: the zero vector stays zero.\<close>
  "normalize v = divideScalar v (if length_v v = 0 then 1 else length_v v)"

definition add :: "vec3 \<Rightarrow> vec3 \<Rightarrow> vec3" where
  "add v w = Vector3 (vx v + vx w) (vy v + vy w) (vz v + vz w)"

definition sub :: "vec3 \<Rightarrow> vec3 \<Rightarrow> vec3" where
  "sub v w = Vector3 (vx v - vx w) (vy v - vy w) (vz v - vz w)"

definition distanceTo :: "vec3 \<Rightarrow> vec3 \<Rightarrow> real" where
  "distanceTo v w = length_v (sub v w)"

text \<open>
  The step shared by every displacement loop of the source:
  \<open>vertex.add(direction.multiplyScalar(h))\<close> with
  \<open>direction = vertex.clone().normalize()\<close>.
\<close>

definition displace :: "vec3 \<Rightarrow> real \<Rightarrow> vec3" where
  "displace vertex h = add vertex (multiplyScalar (normalize vertex) h)"

section \<open>Geometry\<close>

text \<open>
  A \<open>THREE.BufferGeometry\<close>: the position attribute as a list of vertices, the
  optional index buffer, the optional normal attribute, the optional per-vertex
  attribute \<open>aBakedHeight\<close>, and \<open>userData.originalPositions\<close>.
\<close>

record geometry =
  position :: "vec3 list"
  index :: "nat list option"
  normal :: "vec3 list option"
  aBakedHeight :: "real list option"
  userData_originalPositions :: "vec3 list option"

text \<open>
  The library routines the source calls and that are not part of it: the noise
  sampler returned by \<open>createNoise3D()\<close>, the normal computation of
  \<open>computeVertexNormals\<close> (a function of the positions and the index),
  \<open>BufferGeometryUtils.mergeVertices\<close> and \<open>SimplifyModifier.modify\<close>, which
  may throw. They are parameters of the model, taken as functions: the two geometry
  routines build a new geometry and leave the one they are given as it is.
\<close>

record three =
  noise3D :: "real \<Rightarrow> real \<Rightarrow> real \<Rightarrow> real"
  vertexNormals :: "vec3 list \<Rightarrow> nat list option \<Rightarrow> vec3 list"
  mergeVertices :: "geometry \<Rightarrow> geometry"
  modify :: "geometry \<Rightarrow> int \<Rightarrow> error + geometry"

definition computeVertexNormals :: "three \<Rightarrow> geometry \<Rightarrow> geometry" where
  "computeVertexNormals L g = g\<lparr>normal := Some (vertexNormals L (position g) (index g))\<rparr>"

text \<open>The noise sampler "returns -1 to 1", as the source's comments say.\<close>

definition noise_bounded :: "(real \<Rightarrow> real \<Rightarrow> real \<Rightarrow> real) \<Rightarrow> bool" where
  "noise_bounded n \<longleftrightarrow> (\<forall>a b c. - 1 \<le> n a b c \<and> n a b c \<le> 1)"

section \<open>The wave pipeline\<close>

text \<open>
  The module-level variables of the wave pipeline that its geometry functions read
  and write: \<open>planet.geometry\<close>, \<open>originalPositions\<close> (undefined until the
  first bake) and \<open>impactPoint\<close>.
\<close>

record wave_state =
  planet_geometry :: geometry
  originalPositions :: "vec3 list option"
  impactPoint :: vec3

subsection \<open>lockColors\<close>

function lockColors_loop :: "vec3 list \<Rightarrow> nat \<Rightarrow> real list \<Rightarrow> real list" where
  "lockColors_loop posAttr i bakedHeights =
     (if i < length posAttr
      then lockColors_loop posAttr (Suc i) (bakedHeights[i := length_v (posAttr ! i)])
      else bakedHeights)"
  by pat_completeness auto
termination
  by (relation "measure (\<lambda>(posAttr, i, bakedHeights). length posAttr - i)") auto

declare lockColors_loop.simps [simp del]

definition lockColors :: "wave_state \<Rightarrow> wave_state" where
  "lockColors s =
     (let g = planet_geometry s;
          count = length (position g);
          bakedHeights = lockColors_loop (position g) 0 (replicate count 0)
      in s\<lparr>planet_geometry := g\<lparr>aBakedHeight := Some bakedHeights\<rparr>\<rparr>)"

subsection \<open>bakeTerrain of the wave pipeline\<close>

text \<open>The two-octave noise value of one vertex, with the "shallow oceans" damping.\<close>

definition wave_noise :: "three \<Rightarrow> vec3 \<Rightarrow> real" where
  "wave_noise L vertex =
     (let noise = noise3D L (vx vertex * 0.1) (vy vertex * 0.1) (vz vertex * 0.1) * 1.2;
          noise = noise + noise3D L (vx vertex * 0.4) (vy vertex * 0.4) (vz vertex * 0.4) * 0.3
      in if noise < 0 then noise * 0.1 else noise)"

function bakeTerrain_wave_loop :: "three \<Rightarrow> nat \<Rightarrow> vec3 list \<Rightarrow> vec3 list" where
  "bakeTerrain_wave_loop L i posAttr =
     (if i < length posAttr
      then let vertex = posAttr ! i;
               noise = wave_noise L vertex
           in bakeTerrain_wave_loop L (Suc i) (posAttr[i := displace vertex noise])
      else posAttr)"
  by pat_completeness auto
termination
  by (relation "measure (\<lambda>(L, i, posAttr). length posAttr - i)") auto

declare bakeTerrain_wave_loop.simps [simp del]

definition bakeTerrain_wave :: "three \<Rightarrow> wave_state \<Rightarrow> wave_state" where
  "bakeTerrain_wave L s =
     (let g = planet_geometry s;
          g = g\<lparr>position := bakeTerrain_wave_loop L 0 (position g)\<rparr>;
          g = computeVertexNormals L g
      in s\<lparr>planet_geometry := g, originalPositions := Some (position g)\<rparr>)"

subsection \<open>updateRaycast and updateDisplacer\<close>

text \<open>
  The ray cast itself belongs to the picking collaborator: \<open>hit\<close> is the first
  intersection it found, if any.
\<close>

definition updateRaycast :: "vec3 option \<Rightarrow> wave_state \<Rightarrow> wave_state" where
  "updateRaycast hit s = (case hit of None \<Rightarrow> s | Some p \<Rightarrow> s\<lparr>impactPoint := p\<rparr>)"

definition wave :: "vec3 \<Rightarrow> real \<Rightarrow> real \<Rightarrow> vec3 \<Rightarrow> real" where
  "wave impact time audioVolume vertex =
     (let frequency = 2.0;
          falloffRadius = 15.0;
          dist = distanceTo vertex impact;
          falloff = max 0 (1 - dist / falloffRadius);
          falloff = falloff ^ 2
      in sin (dist * frequency - time * 5) * audioVolume * falloff)"

text \<open>
  The loop reads \<open>originalPositions[i * 3 ..]\<close>: on an undefined array that is a
  \<open>TypeError\<close>, past the end of the array it yields NaN coordinates.
\<close>

function updateDisplacer_loop ::
  "vec3 list option \<Rightarrow> vec3 \<Rightarrow> real \<Rightarrow> real \<Rightarrow> nat \<Rightarrow> vec3 list \<Rightarrow> error + vec3 list" where
  "updateDisplacer_loop original impact time audioVolume i posAttr =
     (if i < length posAttr
      then (case original of
              None \<Rightarrow> Inl TypeError
            | Some orig \<Rightarrow>
                if i < length orig
                then let vertex = orig ! i
                     in updateDisplacer_loop original impact time audioVolume (Suc i)
                          (posAttr[i := displace vertex (wave impact time audioVolume vertex)])
                else Inl NonFinite)
      else Inr posAttr)"
  by pat_completeness auto
termination
  by (relation "measure (\<lambda>(original, impact, time, audioVolume, i, posAttr). length posAttr - i)")
     auto

declare updateDisplacer_loop.simps [simp del]

definition updateDisplacer ::
  "three \<Rightarrow> vec3 option \<Rightarrow> real \<Rightarrow> real \<Rightarrow> wave_state \<Rightarrow> error + wave_state" where
  "updateDisplacer L hit time audioVolume s0 =
     (let s = updateRaycast hit s0;
          g = planet_geometry s
      in case updateDisplacer_loop (originalPositions s) (impactPoint s) time audioVolume 0
                (position g) of
           Inl e \<Rightarrow> Inl e
         | Inr ps \<Rightarrow> Inr (s\<lparr>planet_geometry := computeVertexNormals L (g\<lparr>position := ps\<rparr>)\<rparr>))"

text \<open>
  A run of frames: \<open>animate\<close> calls \<open>updateDisplacer\<close> once per frame, each
  with its own ray-cast result, time and volume.
\<close>

fun frames :: "three \<Rightarrow> (vec3 option \<times> real \<times> real) list \<Rightarrow> wave_state \<Rightarrow> error + wave_state" where
  "frames L [] s = Inr s"
| "frames L ((hit, time, audioVolume) # fs) s =
     (case updateDisplacer L hit time audioVolume s of
        Inl e \<Rightarrow> Inl e
      | Inr s' \<Rightarrow> frames L fs s')"

section \<open>The utilities of the main pipeline\<close>

text \<open>
  A \<open>THREE.Mesh\<close>: its geometry, its position, its world matrix as the map
  \<open>applyMatrix4\<close> applies to a point (after \<open>updateMatrixWorld\<close>), and the
  \<open>flatShading\<close> flag of its material.
\<close>

record mesh =
  geometry :: geometry
  mesh_position :: vec3
  matrixWorld :: "vec3 \<Rightarrow> vec3"
  flatShading :: bool

subsection \<open>bakeTerrain\<close>

record params =
  scale :: real
  octaves :: int
  persistence :: real
  lacunarity :: real
  amplitude :: real

definition default_params :: params where
  "default_params =
     \<lparr>scale = 0.05, octaves = 4, persistence = 0.5, lacunarity = 2.0, amplitude = 4\<rparr>"

text \<open>
  The octave loop of one vertex. It returns \<open>noiseValue\<close> and \<open>maxValue\<close>;
  the parameter \<open>amp\<close> is the loop variable \<open>amplitude\<close> of the source.
\<close>

function octave_loop ::
  "three \<Rightarrow> params \<Rightarrow> vec3 \<Rightarrow> int \<Rightarrow> real \<Rightarrow> real \<Rightarrow> real \<Rightarrow> real \<Rightarrow> real \<times> real" where
  "octave_loop L p vertex oct noiseValue frequency amp maxValue =
     (if oct < octaves p
      then let n = noise3D L (vx vertex * frequency) (vy vertex * frequency)
                     (vz vertex * frequency)
           in octave_loop L p vertex (oct + 1) (noiseValue + n * amp)
                (frequency * lacunarity p) (amp * persistence p) (maxValue + amp)
      else (noiseValue, maxValue))"
  by pat_completeness auto
termination
  by (relation "measure (\<lambda>(L, p, vertex, oct, rest). nat (octaves p - oct))") auto

declare octave_loop.simps [simp del]

text \<open>
  \<open>finalHeight = (noiseValue / maxValue) * params.amplitude\<close>. With
  \<open>maxValue = 0\<close> the quotient of the source is NaN or an infinity: \<open>None\<close>.
\<close>

definition finalHeight :: "three \<Rightarrow> params \<Rightarrow> vec3 \<Rightarrow> real option" where
  "finalHeight L p vertex =
     (case octave_loop L p vertex 0 0 (scale p) 1.0 0 of
        (noiseValue, maxValue) \<Rightarrow>
          if maxValue = 0 then None else Some ((noiseValue / maxValue) * amplitude p))"

function bakeTerrain_loop :: "three \<Rightarrow> params \<Rightarrow> nat \<Rightarrow> vec3 list \<Rightarrow> error + vec3 list" where
  "bakeTerrain_loop L p i posAttr =
     (if i < length posAttr
      then let vertex = posAttr ! i
           in case finalHeight L p vertex of
                None \<Rightarrow> Inl NonFinite
              | Some h \<Rightarrow> bakeTerrain_loop L p (Suc i) (posAttr[i := displace vertex h])
      else Inr posAttr)"
  by pat_completeness auto
termination
  by (relation "measure (\<lambda>(L, p, i, posAttr). length posAttr - i)") auto

declare bakeTerrain_loop.simps [simp del]

text \<open>The second argument is optional in the source: \<open>None\<close> takes the defaults.\<close>

definition bakeTerrain :: "three \<Rightarrow> mesh \<Rightarrow> params option \<Rightarrow> error + mesh" where
  "bakeTerrain L planet params =
     (let p = (case params of None \<Rightarrow> default_params | Some q \<Rightarrow> q);
          g = geometry planet
      in case bakeTerrain_loop L p 0 (position g) of
           Inl e \<Rightarrow> Inl e
         | Inr ps \<Rightarrow>
             Inr (planet\<lparr>geometry := mergeVertices L (computeVertexNormals L (g\<lparr>position := ps\<rparr>)),
                         flatShading := True\<rparr>))"

subsection \<open>regenerate\<close>

text \<open>
  The object main.js binds to \<open>params\<close>: the settings of the interface and the
  \<open>regenerate\<close> entry itself. The sliders change the values of its fields; nothing
  adds a field to it. It has none of the noise fields \<open>scale\<close>, \<open>octaves\<close>,
  \<open>persistence\<close>, \<open>lacunarity\<close> and \<open>amplitude\<close>.
\<close>

record settings =
  heat :: real
  season :: string
  waterLevel :: real
  windLevel :: real
  earthquakeLevel :: real

definition main_params :: settings where
  "main_params =
     \<lparr>heat = 0.5, season = ''Summer'', waterLevel = 1.0, windLevel = 0.2,
      earthquakeLevel = 0.0\<rparr>"

text \<open>
  \<open>bakeTerrain\<close> called with such an object, as \<open>regenerate\<close> does. Every read
  of a noise field yields \<open>undefined\<close>. For each vertex the condition
  \<open>o < params.octaves\<close> of the octave loop is false at once, so \<open>noiseValue\<close> and
  \<open>maxValue\<close> stay 0 and \<open>finalHeight\<close> is \<open>(0 / 0) * undefined\<close>, which is
  NaN: the first vertex already leaves the finite numbers. Only a mesh without vertices
  gets past the loop, to the normals, the weld and the flat shading.
\<close>

definition bakeTerrain_settings :: "three \<Rightarrow> mesh \<Rightarrow> settings \<Rightarrow> error + mesh" where
  "bakeTerrain_settings L planet params =
     (let g = geometry planet
      in if 0 < length (position g) then Inl NonFinite
         else Inr (planet\<lparr>geometry := mergeVertices L (computeVertexNormals L g),
                          flatShading := True\<rparr>))"

text \<open>
  \<open>params.regenerate\<close> of main.js: a function of no argument over the module
  variables \<open>planet\<close> and \<open>params\<close>, the settings object. It bakes the mesh as
  it is, in place, and stores a copy of the positions the bake leaves.
\<close>

definition regenerate :: "three \<Rightarrow> settings \<Rightarrow> mesh \<Rightarrow> error + mesh" where
  "regenerate L params planet =
     (case bakeTerrain_settings L planet params of
        Inl e \<Rightarrow> Inl e
      | Inr planet' \<Rightarrow>
          Inr (planet'\<lparr>geometry := (geometry planet')
                 \<lparr>userData_originalPositions := Some (position (geometry planet'))\<rparr>\<rparr>))"

text \<open>Two invocations of \<open>regenerate\<close> in succession.\<close>

definition regenerate_twice :: "three \<Rightarrow> settings \<Rightarrow> mesh \<Rightarrow> error + mesh" where
  "regenerate_twice L params planet =
     (case regenerate L params planet of
        Inl e \<Rightarrow> Inl e
      | Inr planet' \<Rightarrow> regenerate L params planet')"

subsection \<open>reduceMeshComplexity\<close>

text \<open>What the function writes to the console.\<close>

datatype report = Reduced nat nat | SimplificationFailed error

definition reduceMeshComplexity :: "three \<Rightarrow> mesh \<Rightarrow> real \<Rightarrow> mesh \<times> report" where
  "reduceMeshComplexity L m reductionRatio =
     (let g = (if index (geometry m) = None then mergeVertices L (geometry m) else geometry m);
          initialCount = length (position g);
          countToRemove = \<lfloor>real initialCount * reductionRatio\<rfloor>
      in case modify L g countToRemove of
           Inl e \<Rightarrow> (m, SimplificationFailed e)
         | Inr simplified0 \<Rightarrow>
             let simplified = computeVertexNormals L simplified0
             in (m\<lparr>geometry := simplified\<rparr>,
                 Reduced initialCount (length (position simplified))))"

subsection \<open>loadAssets\<close>

datatype object3d =
  Object3D (isMesh: bool) (castShadow: bool) (receiveShadow: bool) (children: "object3d list")

datatype asset = SceneAsset object3d | TextureAsset string

text \<open>The two loaders: for each address, the scene or texture it yields or its failure.\<close>

record loaders =
  gltfLoader :: "string \<Rightarrow> error + object3d"
  textureLoader :: "string \<Rightarrow> error + string"

definition endsWith :: "string \<Rightarrow> string \<Rightarrow> bool" where
  "endsWith s suf \<longleftrightarrow> length suf \<le> length s \<and> drop (length s - length suf) s = suf"

definition recognised :: "string \<Rightarrow> bool" where
  "recognised url \<longleftrightarrow>
     endsWith url ''.glb'' \<or> endsWith url ''.gltf'' \<or> endsWith url ''.png'' \<or> endsWith url ''.jpg''"

text \<open>\<open>result.scene.traverse\<close>: every mesh node casts and receives shadows.\<close>

fun shadow_ready :: "object3d \<Rightarrow> object3d" where
  "shadow_ready (Object3D m c r ch) =
     Object3D m (if m then True else c) (if m then True else r) (map shadow_ready ch)"

text \<open>
  One of the \<open>assetPromises\<close>: it rejects with the loader's failure, or resolves
  after storing at most one entry into \<open>loadedAssets\<close>.
\<close>

definition assetPromise :: "loaders \<Rightarrow> string \<times> string \<Rightarrow> error + (string \<times> asset) option" where
  "assetPromise ld entry =
     (case entry of (name, url) \<Rightarrow>
        if endsWith url ''.glb'' \<or> endsWith url ''.gltf''
        then (case gltfLoader ld url of
                Inl e \<Rightarrow> Inl e
              | Inr scene \<Rightarrow> Inr (Some (name, SceneAsset (shadow_ready scene))))
        else if endsWith url ''.png'' \<or> endsWith url ''.jpg''
        then (case textureLoader ld url of
                Inl e \<Rightarrow> Inl e
              | Inr texture \<Rightarrow> Inr (Some (name, TextureAsset texture)))
        else Inr None)"

text \<open>
  \<open>Promise.all\<close>: it rejects as soon as one promise rejects. Which rejection
  it reports when several promises reject depends on their timing; the model reports
  the first in the order of the entries.
\<close>

fun promise_all :: "(error + 'a) list \<Rightarrow> error + 'a list" where
  "promise_all [] = Inr []"
| "promise_all (Inl e # ps) = Inl e"
| "promise_all (Inr a # ps) = (case promise_all ps of Inl e \<Rightarrow> Inl e | Inr as \<Rightarrow> Inr (a # as))"

fun store :: "(string \<rightharpoonup> asset) \<Rightarrow> (string \<times> asset) option list \<Rightarrow> (string \<rightharpoonup> asset)" where
  "store loadedAssets [] = loadedAssets"
| "store loadedAssets (None # rs) = store loadedAssets rs"
| "store loadedAssets (Some (name, a) # rs) = store (loadedAssets(name \<mapsto> a)) rs"

definition loadAssets :: "loaders \<Rightarrow> (string \<times> string) list \<Rightarrow> error + (string \<rightharpoonup> asset)" where
  "loadAssets ld assetsObj =
     (case promise_all (map (assetPromise ld) assetsObj) of
        Inl e \<Rightarrow> Inl e
      | Inr rs \<Rightarrow> Inr (store Map.empty rs))"

subsection \<open>cloner\<close>

text \<open>
  A placed clone: the prefab it copies, the scale set by \<open>setScalar\<close> if any, its
  position (the vertex in world coordinates; \<open>None\<close> when the vertex index is outside
  the buffer and the source computes NaN), the surface normal its up axis is turned to,
  and the random rotation angles and local offsets if any. The field \<open>vIndex\<close> is
  the vertex index the clone was placed at: the source keeps it in \<open>usedIndices\<close>
  only.
\<close>

record 'p clone =
  prefab :: 'p
  vIndex :: int
  clone_scale :: "real option"
  clone_position :: "vec3 option"
  clone_normal :: "vec3 option"
  clone_rotation :: "(real \<times> real \<times> real) option"
  clone_offset :: "(real \<times> real \<times> real) option"

text \<open>
  The scene and the state of \<open>Math.random\<close>: the generator is a sequence
  \<open>random\<close> of numbers, and \<open>cursor\<close> counts the draws made so far.
\<close>

record 'p world =
  scene :: "'p clone list"
  cursor :: nat

text \<open>
  The \<open>do ... while (usedIndices.has(vIndex))\<close> loop. It has no bound: on a
  sequence that never yields a fresh index it does not return.
\<close>

partial_function (option) draw_vIndex ::
  "(nat \<Rightarrow> real) \<Rightarrow> nat \<Rightarrow> int set \<Rightarrow> nat \<Rightarrow> (int \<times> nat) option" where
  "draw_vIndex random totalVertices usedIndices k =
     (if \<lfloor>random k * real totalVertices\<rfloor> \<in> usedIndices
      then draw_vIndex random totalVertices usedIndices (Suc k)
      else Some (\<lfloor>random k * real totalVertices\<rfloor>, Suc k))"

text \<open>
  The rest of one iteration, from the choice of the prefab on. Calling
  \<open>clone\<close> on a missing array element is a \<open>TypeError\<close>.
\<close>

definition place ::
  "(nat \<Rightarrow> real) \<Rightarrow> mesh \<Rightarrow> 'p list \<Rightarrow> real \<Rightarrow> bool \<Rightarrow> bool \<Rightarrow> bool \<Rightarrow> int \<Rightarrow> nat
     \<Rightarrow> (error + 'p clone) \<times> nat" where
  "place random planet prefabs size' scaleRand rotationRand positionRand v k0 =
     (let positions = position (geometry planet);
          dispAmount = 0.5;
          pIndex = \<lfloor>random k0 * real (length prefabs)\<rfloor>;
          k1 = Suc k0
      in if \<not> (0 \<le> pIndex \<and> pIndex < int (length prefabs)) then (Inl TypeError, k1)
         else
           let randomPrefab = prefabs ! nat pIndex;
               minScale = 0.001 * size';
               maxScale = 0.002 * size';
               randomScale =
                 (if scaleRand then Some (random k1 * (maxScale - minScale) + minScale) else None);
               k2 = (if scaleRand then Suc k1 else k1);
               vertex =
                 (if 0 \<le> v \<and> v < int (length positions)
                  then Some (matrixWorld planet (positions ! nat v)) else None);
               normal = map_option (\<lambda>w. normalize (sub w (mesh_position planet))) vertex;
               rotation =
                 (if rotationRand
                  then Some (random k2 * pi * 2, random (k2 + 1) * pi * 2, random (k2 + 2) * pi * 2)
                  else None);
               k3 = (if rotationRand then k2 + 3 else k2);
               offset =
                 (if positionRand
                  then Some ((random k3 - 0.5) * dispAmount, (random (k3 + 1) - 0.5) * dispAmount,
                             (random (k3 + 2) - 0.5) * dispAmount)
                  else None);
               k4 = (if positionRand then k3 + 3 else k3)
           in (Inr \<lparr>prefab = randomPrefab, vIndex = v, clone_scale = randomScale,
                     clone_position = vertex, clone_normal = normal,
                     clone_rotation = rotation, clone_offset = offset\<rparr>, k4))"

function cloner_loop ::
  "(nat \<Rightarrow> real) \<Rightarrow> mesh \<Rightarrow> 'p list \<Rightarrow> real \<Rightarrow> bool \<Rightarrow> bool \<Rightarrow> bool \<Rightarrow> int \<Rightarrow> int \<Rightarrow> int set
     \<Rightarrow> 'p clone list \<Rightarrow> 'p world \<Rightarrow> ((error + 'p clone list) \<times> 'p world) option" where
  "cloner_loop random planet prefabs size' scaleRand rotationRand positionRand actualCount i
       usedIndices clones w =
     (if i < actualCount
      then (case draw_vIndex random (length (position (geometry planet))) usedIndices (cursor w) of
              None \<Rightarrow> None
            | Some (v, k) \<Rightarrow>
                (case place random planet prefabs size' scaleRand rotationRand positionRand v k of
                   (Inl e, k') \<Rightarrow> Some (Inl e, w\<lparr>cursor := k'\<rparr>)
                 | (Inr c, k') \<Rightarrow>
                     cloner_loop random planet prefabs size' scaleRand rotationRand positionRand
                       actualCount (i + 1) (insert v usedIndices) (clones @ [c])
                       (w\<lparr>scene := scene w @ [c], cursor := k'\<rparr>)))
      else Some (Inr clones, w))"
  by pat_completeness auto
termination
  by (relation "measure (\<lambda>(random, planet, prefabs, size', scaleRand, rotationRand, positionRand,
                           actualCount, i, rest). nat (actualCount - i))") auto

declare cloner_loop.simps [simp del]

text \<open>
  \<open>cloner\<close>: \<open>None\<close> is a call that does not return, \<open>Inl\<close> one that
  throws; the world is the one the call leaves behind.
\<close>

definition cloner ::
  "(nat \<Rightarrow> real) \<Rightarrow> mesh \<Rightarrow> int \<Rightarrow> 'p list \<Rightarrow> 'p world \<Rightarrow> real \<Rightarrow> bool \<Rightarrow> bool \<Rightarrow> bool
     \<Rightarrow> ((error + 'p clone list) \<times> 'p world) option" where
  "cloner random planet count prefabs w size' scaleRand rotationRand positionRand =
     (let totalVertices = length (position (geometry planet));
          actualCount = min count (int totalVertices)
      in cloner_loop random planet prefabs size' scaleRand rotationRand positionRand actualCount 0
           {} [] w)"

text \<open>
  \<open>Math.random\<close> yields numbers in \<open>[0, 1)\<close>. A sequence is fair for \<open>n\<close>
  indices when, from every point on, each index \<open>\<lfloor>r * n\<rfloor>\<close> below \<open>n\<close> is still
  to come.
\<close>

definition unit_range :: "(nat \<Rightarrow> real) \<Rightarrow> bool" where
  "unit_range random \<longleftrightarrow> (\<forall>k. 0 \<le> random k \<and> random k < 1)"

definition fair :: "(nat \<Rightarrow> real) \<Rightarrow> nat \<Rightarrow> bool" where
  "fair random n \<longleftrightarrow> (\<forall>k. \<forall>j<n. \<exists>k'\<ge>k. \<lfloor>random k' * real n\<rfloor> = int j)"

text \<open>A fair sequence: it runs through the \<open>n\<close> indices in turn.\<close>

definition round_robin :: "nat \<Rightarrow> nat \<Rightarrow> real" where
  "round_robin n k = real (k mod n) / real n"

section \<open>Example data\<close>

text \<open>
  A stand-in for the library with a constant noise sampler, a weld that finds nothing
  to merge and a modifier that drops the requested vertices or fails.
\<close>

definition flat_three :: "real \<Rightarrow> three" where
  "flat_three c =
     \<lparr>noise3D = (\<lambda>a b d. c), vertexNormals = (\<lambda>ps ix. map normalize ps),
      mergeVertices = (\<lambda>g. g),
      modify = (\<lambda>g n. if 0 \<le> n \<and> n < int (length (position g))
                        then Inr (g\<lparr>position := drop (nat n) (position g)\<rparr>)
                        else Inl (SimplifyFailure ''no next vertex''))\<rparr>"

text \<open>A geometry with one vertex, on the first axis at distance 10.\<close>

definition axis_geometry :: geometry where
  "axis_geometry =
     \<lparr>position = [Vector3 10 0 0], index = None, normal = None, aBakedHeight = None,
      userData_originalPositions = None\<rparr>"

definition axis_state :: wave_state where
  "axis_state =
     \<lparr>planet_geometry = axis_geometry, originalPositions = Some [Vector3 10 0 0],
      impactPoint = Vector3 (- 10) 0 0\<rparr>"

text \<open>
  A library whose noise sampler is 1 below the plane \<open>x = 1\<close> and -1 from there on,
  and parameters with a negative persistence.
\<close>

definition step_three :: three where
  "step_three = (flat_three 0)\<lparr>noise3D := (\<lambda>a b d. if a < 1 then 1 else - 1)\<rparr>"

definition alternating_params :: params where
  "alternating_params =
     \<lparr>scale = 0.05, octaves = 2, persistence = - 0.5, lacunarity = 2.0, amplitude = 4\<rparr>"

text \<open>A mesh on the one-vertex geometry.\<close>

definition axis_mesh :: mesh where
  "axis_mesh =
     \<lparr>geometry = axis_geometry, mesh_position = Vector3 0 0 0, matrixWorld = (\<lambda>v. v),
      flatShading = False\<rparr>"

text \<open>
  Loaders for which every model loads except \<open>pine.glb\<close>, and every texture loads.
\<close>

definition flaky_loaders :: loaders where
  "flaky_loaders =
     \<lparr>gltfLoader = (\<lambda>url. if url = ''pine.glb'' then Inl (LoadFailure url)
                           else Inr (Object3D True False False [])),
      textureLoader = (\<lambda>url. Inr url)\<rparr>"

text \<open>A mesh with three vertices, and a world with an empty scene and no draw made.\<close>

definition tri_mesh :: mesh where
  "tri_mesh =
     \<lparr>geometry = axis_geometry\<lparr>position := [Vector3 10 0 0, Vector3 0 10 0, Vector3 0 0 10]\<rparr>,
      mesh_position = Vector3 0 0 0, matrixWorld = (\<lambda>v. v), flatShading = False\<rparr>"

definition empty_world :: "string world" where
  "empty_world = \<lparr>scene = [], cursor = 0\<rparr>"

section \<open>Properties of the vector operations\<close>

lemma length_v_nonneg: "0 \<le> length_v v"
  by (simp add: length_v_def)

lemma length_v_multiplyScalar: "length_v (multiplyScalar v s) = \<bar>s\<bar> * length_v v"
proof -
  have "vx v * s * (vx v * s) + vy v * s * (vy v * s) + vz v * s * (vz v * s)
        = s\<^sup>2 * (vx v * vx v + vy v * vy v + vz v * vz v)"
    by (simp add: power2_eq_square algebra_simps)
  then show ?thesis
    by (simp add: length_v_def multiplyScalar_def real_sqrt_mult)
qed

lemma length_v_axis [simp]: "length_v (Vector3 a 0 0) = \<bar>a\<bar>"
  by (simp add: length_v_def)

text \<open>Displacing a vertex rescales it, since the direction is the vertex normalised.\<close>

lemma displace_scale:
  "displace v h = multiplyScalar v (1 + h / (if length_v v = 0 then 1 else length_v v))"
  by (cases v) (simp add: displace_def add_def multiplyScalar_def normalize_def divideScalar_def
      algebra_simps)

lemma displace_zero [simp]: "displace v 0 = v"
  by (cases v) (simp add: displace_scale multiplyScalar_def)

lemma length_displace:
  "length_v (displace v h) = (if length_v v = 0 then 0 else \<bar>length_v v + h\<bar>)"
proof (cases "length_v v = 0")
  case True
  then show ?thesis
    by (simp add: displace_scale length_v_multiplyScalar)
next
  case False
  with length_v_nonneg [of v] have pos: "0 < length_v v" by simp
  have "\<bar>1 + h / length_v v\<bar> * length_v v = \<bar>(1 + h / length_v v) * length_v v\<bar>"
    using pos by (simp add: abs_mult)
  also have "(1 + h / length_v v) * length_v v = length_v v + h"
    using pos by (simp add: field_simps)
  finally show ?thesis
    using False by (simp add: displace_scale length_v_multiplyScalar)
qed

lemma length_displace_bounds:
  assumes "lo \<le> h" "h \<le> hi" "lo \<le> 0" "- lo \<le> hi"
  shows "lo \<le> length_v (displace v h) - length_v v"
    and "length_v (displace v h) - length_v v \<le> hi"
  using assms length_v_nonneg [of v] by (auto simp: length_displace)

lemma length_displace_abs: "\<bar>length_v (displace v h) - length_v v\<bar> \<le> \<bar>h\<bar>"
  using length_v_nonneg [of v] by (auto simp: length_displace)

lemma take_Suc_update: "i < length ps \<Longrightarrow> take (Suc i) (ps[i := x]) = take i ps @ [x]"
  by (simp add: take_Suc_conv_app_nth)

section \<open>The wave pipeline: bake, lock and displacement\<close>

lemma bakeTerrain_wave_loop_eq:
  "bakeTerrain_wave_loop L i ps = take i ps @ map (\<lambda>v. displace v (wave_noise L v)) (drop i ps)"
proof (induction L i ps rule: bakeTerrain_wave_loop.induct)
  case (1 L i posAttr)
  show ?case
  proof (cases "i < length posAttr")
    case True
    then show ?thesis
      using 1 [OF True refl refl]
      by (subst bakeTerrain_wave_loop.simps)
         (simp add: take_Suc_update Cons_nth_drop_Suc [symmetric] Let_def)
  next
    case False
    then show ?thesis
      by (subst bakeTerrain_wave_loop.simps) simp
  qed
qed

lemma wave_noise_bounds:
  assumes "noise_bounded (noise3D L)"
  shows "- 0.15 \<le> wave_noise L v" and "wave_noise L v \<le> 1.5"
proof -
  let ?a = "noise3D L (vx v * 0.1) (vy v * 0.1) (vz v * 0.1)"
  let ?b = "noise3D L (vx v * 0.4) (vy v * 0.4) (vz v * 0.4)"
  from assms have "- 1 \<le> ?a" "?a \<le> 1" "- 1 \<le> ?b" "?b \<le> 1"
    by (simp_all add: noise_bounded_def)
  then show "- 0.15 \<le> wave_noise L v" and "wave_noise L v \<le> 1.5"
    by (simp_all add: wave_noise_def Let_def)
qed

lemma position_bakeTerrain_wave:
  "position (planet_geometry (bakeTerrain_wave L s)) =
     map (\<lambda>v. displace v (wave_noise L v)) (position (planet_geometry s))"
  by (simp add: bakeTerrain_wave_def Let_def computeVertexNormals_def bakeTerrain_wave_loop_eq)

text \<open>
  Claim C10. In the bake of the wave pipeline, a negative sum of the two noise octaves
  is multiplied by 0.1 before the vertex is moved. With noise samples in \<open>[-1, 1]\<close>,
  every vertex moves along its radial direction by a signed amount \<open>h\<close> with
  \<open>-0.15 \<le> h \<le> 1.5\<close>: at most 1.5 outward and at most 0.15 inward, and its
  distance from the origin changes by an amount in the same range.
\<close>

theorem bakeTerrain_wave_shallow_oceans:
  assumes "noise_bounded (noise3D L)"
    and "i < length (position (planet_geometry s))"
  shows "let v = position (planet_geometry s) ! i;
             summed = noise3D L (vx v * 0.1) (vy v * 0.1) (vz v * 0.1) * 1.2
                    + noise3D L (vx v * 0.4) (vy v * 0.4) (vz v * 0.4) * 0.3;
             h = (if summed < 0 then summed * 0.1 else summed);
             v' = position (planet_geometry (bakeTerrain_wave L s)) ! i
         in v' = add v (multiplyScalar (normalize v) h)
            \<and> - 0.15 \<le> h \<and> h \<le> 1.5
            \<and> - 0.15 \<le> length_v v' - length_v v \<and> length_v v' - length_v v \<le> 1.5"
proof -
  let ?v = "position (planet_geometry s) ! i"
  have h: "wave_noise L ?v =
      (let summed = noise3D L (vx ?v * 0.1) (vy ?v * 0.1) (vz ?v * 0.1) * 1.2
                  + noise3D L (vx ?v * 0.4) (vy ?v * 0.4) (vz ?v * 0.4) * 0.3
       in if summed < 0 then summed * 0.1 else summed)"
    by (simp add: wave_noise_def Let_def)
  have v': "position (planet_geometry (bakeTerrain_wave L s)) ! i = displace ?v (wave_noise L ?v)"
    using assms(2) by (simp add: position_bakeTerrain_wave)
  have b: "- 0.15 \<le> wave_noise L ?v" "wave_noise L ?v \<le> 1.5"
    using wave_noise_bounds [OF assms(1)] by simp_all
  have d: "- 0.15 \<le> length_v (displace ?v (wave_noise L ?v)) - length_v ?v"
          "length_v (displace ?v (wave_noise L ?v)) - length_v ?v \<le> 1.5"
    using length_displace_bounds [OF b] by simp_all
  show ?thesis
    using v' b d unfolding h by (simp add: Let_def displace_def)
qed

text \<open>
  The theorem at work: with a noise sampler that always returns \<open>-1\<close>, the vertex
  at distance 10 moves inward by 0.15.
\<close>

theorem bakeTerrain_wave_shallow_oceans_witness:
  "noise_bounded (noise3D (flat_three (- 1)))
   \<and> (0::nat) < length (position (planet_geometry axis_state))
   \<and> position (planet_geometry (bakeTerrain_wave (flat_three (- 1)) axis_state)) ! 0
       = add (Vector3 10 0 0) (multiplyScalar (normalize (Vector3 10 0 0)) (- 0.15))"
proof -
  have n: "noise_bounded (noise3D (flat_three (- 1)))"
    by (simp add: noise_bounded_def flat_three_def)
  have l: "0 < length (position (planet_geometry axis_state))"
    by (simp add: axis_state_def axis_geometry_def)
  show ?thesis
    using n l bakeTerrain_wave_shallow_oceans [OF n l]
    by (simp add: Let_def axis_state_def axis_geometry_def flat_three_def)
qed

text \<open>
  The bake leaves a baseline that covers the vertex buffer: the state in which
  \<open>animate\<close> starts calling \<open>updateDisplacer\<close>.
\<close>

lemma bakeTerrain_wave_baseline:
  "originalPositions (bakeTerrain_wave L s) = Some (position (planet_geometry (bakeTerrain_wave L s)))"
  by (simp add: bakeTerrain_wave_def Let_def computeVertexNormals_def)

lemma updateDisplacer_loop_eq:
  assumes "length ps \<le> length orig"
  shows "updateDisplacer_loop (Some orig) impact time audioVolume i ps =
           Inr (take i ps @ map (\<lambda>v. displace v (wave impact time audioVolume v))
                  (drop i (take (length ps) orig)))"
  using assms
proof (induction "Some orig" impact time audioVolume i ps rule: updateDisplacer_loop.induct)
  case (1 impact time audioVolume i posAttr)
  show ?case
  proof (cases "i < length posAttr")
    case True
    with "1.prems" have io: "i < length orig" by simp
    have d: "drop i (take (length posAttr) orig) =
               orig ! i # drop (Suc i) (take (length posAttr) orig)"
    proof -
      have "i < length (take (length posAttr) orig)"
        using True io by simp
      from Cons_nth_drop_Suc [OF this, symmetric] show ?thesis
        using True by (simp only: nth_take)
    qed
    show ?thesis
      using True io "1.prems" 1(1) [OF True refl io refl]
      by (subst updateDisplacer_loop.simps) (simp add: take_Suc_update d Let_def)
  next
    case False
    then show ?thesis
      by (subst updateDisplacer_loop.simps) simp
  qed
qed

lemma updateDisplacer_ok:
  assumes "originalPositions s = Some baseline"
    and "length (position (planet_geometry s)) \<le> length baseline"
  shows "updateDisplacer L hit time audioVolume s =
           Inr (s\<lparr>impactPoint := (case hit of None \<Rightarrow> impactPoint s | Some p \<Rightarrow> p),
                  planet_geometry := (planet_geometry s)
                    \<lparr>position := map (\<lambda>v. displace v
                         (wave (case hit of None \<Rightarrow> impactPoint s | Some p \<Rightarrow> p) time audioVolume v))
                         (take (length (position (planet_geometry s))) baseline),
                     normal := Some (vertexNormals L
                        (map (\<lambda>v. displace v
                         (wave (case hit of None \<Rightarrow> impactPoint s | Some p \<Rightarrow> p) time audioVolume v))
                         (take (length (position (planet_geometry s))) baseline))
                        (index (planet_geometry s)))\<rparr>\<rparr>)"
  using assms
  by (cases hit)
     (simp_all add: updateDisplacer_def updateRaycast_def Let_def updateDisplacer_loop_eq
        computeVertexNormals_def)

text \<open>
  Claim C3. Whenever the baseline \<open>originalPositions\<close> covers the vertex buffer,
  an invocation of the wave displacer returns and sets every vertex \<open>i\<close> to
  \<open>baseline\<^sub>i + normalize(baseline\<^sub>i) * sin(dist\<^sub>i * frequency - time * timeScale) *
  amplitude * max(0, 1 - dist\<^sub>i / falloffRadius)\<^sup>2\<close>, with \<open>frequency = 2\<close>,
  \<open>timeScale = 5\<close>, \<open>falloffRadius = 15\<close>, the amplitude \<open>audioVolume\<close> and
  \<open>dist\<^sub>i\<close> the distance from the baseline vertex to the impact point of this
  invocation. A vertex at distance \<open>falloffRadius\<close> or more is left at its baseline
  position, whatever the time.
\<close>

theorem updateDisplacer_wave_formula:
  assumes "originalPositions s = Some baseline"
    and "length (position (planet_geometry s)) \<le> length baseline"
    and "i < length (position (planet_geometry s))"
  shows "\<exists>s'. updateDisplacer L hit time audioVolume s = Inr s'
           \<and> (let frequency = 2; timeScale = 5; falloffRadius = 15;
                   impact = impactPoint s';
                   b = baseline ! i;
                   dist = distanceTo b impact;
                   p = position (planet_geometry s') ! i
               in impact = (case hit of None \<Rightarrow> impactPoint s | Some q \<Rightarrow> q)
                  \<and> p = add b (multiplyScalar (normalize b)
                          (sin (dist * frequency - time * timeScale) * audioVolume
                             * (max 0 (1 - dist / falloffRadius))\<^sup>2))
                  \<and> (falloffRadius \<le> dist \<longrightarrow> p = b))"
proof -
  let ?impact = "case hit of None \<Rightarrow> impactPoint s | Some q \<Rightarrow> q"
  let ?b = "baseline ! i"
  have far: "wave ?impact time audioVolume ?b = 0" if "15 \<le> distanceTo ?b ?impact"
    using that by (simp add: wave_def Let_def max_def)
  show ?thesis
    using assms(2,3) far
    by (simp add: updateDisplacer_ok [OF assms(1,2)] Let_def displace_def [symmetric])
       (simp add: wave_def Let_def)
qed

text \<open>
  The theorem at work: the impact point is 20 away from the only vertex, which stays
  where its baseline is.
\<close>

theorem updateDisplacer_wave_formula_witness:
  "originalPositions axis_state = Some [Vector3 10 0 0]
   \<and> length (position (planet_geometry axis_state)) \<le> length [Vector3 10 0 0]
   \<and> (0::nat) < length (position (planet_geometry axis_state))
   \<and> (15::real) \<le> distanceTo (Vector3 10 0 0) (Vector3 (- 10) 0 0)
   \<and> (\<exists>s'. updateDisplacer (flat_three 0) None 3 1 axis_state = Inr s'
          \<and> position (planet_geometry s') ! 0 = Vector3 10 0 0)"
proof -
  have a: "originalPositions axis_state = Some [Vector3 10 0 0]"
    by (simp add: axis_state_def)
  have b: "length (position (planet_geometry axis_state)) \<le> length [Vector3 10 0 0]"
    by (simp add: axis_state_def axis_geometry_def)
  have c: "0 < length (position (planet_geometry axis_state))"
    by (simp add: axis_state_def axis_geometry_def)
  have d: "(15::real) \<le> distanceTo (Vector3 10 0 0) (Vector3 (- 10) 0 0)"
    by (simp add: distanceTo_def sub_def)
  from updateDisplacer_wave_formula [OF a b c, of "flat_three 0" None 3 1]
  obtain s' where s': "updateDisplacer (flat_three 0) None 3 1 axis_state = Inr s'"
    and p: "impactPoint s' = impactPoint axis_state
       \<and> (15 \<le> distanceTo (Vector3 10 0 0) (impactPoint s')
            \<longrightarrow> position (planet_geometry s') ! 0 = Vector3 10 0 0)"
    by (auto simp: Let_def)
  from p d have "position (planet_geometry s') ! 0 = Vector3 10 0 0"
    by (simp add: axis_state_def)
  with a b c d s' show ?thesis by blast
qed

lemma lockColors_loop_eq:
  assumes "length hs = length ps"
  shows "lockColors_loop ps i hs = take i hs @ map length_v (drop i ps)"
  using assms
proof (induction ps i hs rule: lockColors_loop.induct)
  case (1 posAttr i bakedHeights)
  show ?case
  proof (cases "i < length posAttr")
    case True
    then show ?thesis
      using "1.prems" 1(1) [OF True]
      by (subst lockColors_loop.simps)
         (simp add: take_Suc_update Cons_nth_drop_Suc [symmetric])
  next
    case False
    then show ?thesis
      using "1.prems" by (subst lockColors_loop.simps) simp
  qed
qed

lemma aBakedHeight_lockColors:
  "aBakedHeight (planet_geometry (lockColors s)) =
     Some (map length_v (position (planet_geometry s)))"
  by (simp add: lockColors_def Let_def lockColors_loop_eq)

lemma lockColors_frame:
  "position (planet_geometry (lockColors s)) = position (planet_geometry s)"
  "originalPositions (lockColors s) = originalPositions s"
  by (simp_all add: lockColors_def Let_def)

lemma frames_keep_aBakedHeight:
  assumes "originalPositions t = Some baseline"
    and "length (position (planet_geometry t)) \<le> length baseline"
  shows "\<exists>t'. frames L fs t = Inr t'
           \<and> aBakedHeight (planet_geometry t') = aBakedHeight (planet_geometry t)"
  using assms
proof (induction fs arbitrary: t)
  case Nil
  then show ?case by simp
next
  case (Cons f fs)
  obtain hit time audioVolume where f: "f = (hit, time, audioVolume)"
    by (cases f) auto
  from updateDisplacer_ok [OF Cons.prems, of L hit time audioVolume]
  obtain u where u: "updateDisplacer L hit time audioVolume t = Inr u"
    and o: "originalPositions u = Some baseline"
    and l: "length (position (planet_geometry u)) \<le> length baseline"
    and h: "aBakedHeight (planet_geometry u) = aBakedHeight (planet_geometry t)"
    using Cons.prems by simp
  from Cons.IH [OF o l] u h f show ?case
    by auto
qed

text \<open>
  Claim C8. \<open>lockColors\<close> writes the distance of every vertex from the origin into
  \<open>aBakedHeight\<close>, and no later run of \<open>updateDisplacer\<close> changes that
  attribute: after any number of frames, each with its own impact point, time and
  volume, \<open>aBakedHeight\<close> still holds the locked values.
\<close>

theorem lockColors_survives_displacement:
  assumes "originalPositions s = Some baseline"
    and "length (position (planet_geometry s)) \<le> length baseline"
  shows "aBakedHeight (planet_geometry (lockColors s))
           = Some (map length_v (position (planet_geometry s)))
         \<and> (\<exists>s'. frames L fs (lockColors s) = Inr s'
               \<and> aBakedHeight (planet_geometry s')
                   = Some (map length_v (position (planet_geometry s))))"
  using frames_keep_aBakedHeight [of "lockColors s" baseline L fs] assms
  by (simp add: aBakedHeight_lockColors lockColors_frame)

text \<open>The theorem at work: two frames after the lock, the locked height is still 10.\<close>

theorem lockColors_survives_displacement_witness:
  "originalPositions axis_state = Some [Vector3 10 0 0]
   \<and> length (position (planet_geometry axis_state)) \<le> length [Vector3 10 0 0]
   \<and> (\<exists>s'. frames (flat_three 0) [(None, 1, 1), (Some (Vector3 0 10 0), 2, 1)]
               (lockColors axis_state) = Inr s'
          \<and> aBakedHeight (planet_geometry s') = Some [10])"
proof -
  have a: "originalPositions axis_state = Some [Vector3 10 0 0]"
    by (simp add: axis_state_def)
  have b: "length (position (planet_geometry axis_state)) \<le> length [Vector3 10 0 0]"
    by (simp add: axis_state_def axis_geometry_def)
  show ?thesis
    using a b lockColors_survives_displacement [OF a b,
        of "flat_three 0" "[(None, 1, 1), (Some (Vector3 0 10 0), 2, 1)]"]
    by (simp add: axis_state_def axis_geometry_def)
qed

section \<open>The main pipeline: bake and regenerate\<close>

lemma octave_loop_bounds:
  assumes "noise_bounded (noise3D L)" and "0 \<le> persistence p"
    and "0 \<le> amp" and "\<bar>noiseValue\<bar> \<le> maxValue"
  shows "\<bar>fst (octave_loop L p vertex oct noiseValue frequency amp maxValue)\<bar>
           \<le> snd (octave_loop L p vertex oct noiseValue frequency amp maxValue)
         \<and> maxValue + (if oct < octaves p then amp else 0)
           \<le> snd (octave_loop L p vertex oct noiseValue frequency amp maxValue)"
  using assms
proof (induction L p vertex oct noiseValue frequency amp maxValue rule: octave_loop.induct)
  case (1 L p vertex oct noiseValue frequency amp maxValue)
  show ?case
  proof (cases "oct < octaves p")
    case True
    let ?n = "noise3D L (vx vertex * frequency) (vy vertex * frequency) (vz vertex * frequency)"
    from "1.prems"(1) have n: "\<bar>?n\<bar> \<le> 1"
      by (simp add: noise_bounded_def abs_le_iff)
    have "\<bar>?n * amp\<bar> \<le> amp"
      using n "1.prems"(3) by (simp add: abs_mult mult_left_le_one_le)
    then have nv: "\<bar>noiseValue + ?n * amp\<bar> \<le> maxValue + amp"
      using "1.prems"(4) by linarith
    have a: "0 \<le> amp * persistence p"
      using "1.prems"(2,3) by simp
    from 1(1) [OF True refl "1.prems"(1,2) a nv]
    show ?thesis
      using True a by (subst (1 2 3) octave_loop.simps) (auto simp: Let_def split: if_splits)
  next
    case False
    then show ?thesis
      using "1.prems" by (subst (1 2 3) octave_loop.simps) simp
  qed
qed

lemma finalHeight_bounded:
  assumes "noise_bounded (noise3D L)" and "0 \<le> persistence p" and "1 \<le> octaves p"
  shows "\<exists>h. finalHeight L p vertex = Some h \<and> \<bar>h\<bar> \<le> \<bar>amplitude p\<bar>"
proof -
  obtain nv mv where r: "octave_loop L p vertex 0 0 (scale p) 1 0 = (nv, mv)"
    by (cases "octave_loop L p vertex 0 0 (scale p) 1 0") auto
  from octave_loop_bounds [OF assms(1,2), of 1 0 0 vertex 0 "scale p"] assms(3) r
  have b: "\<bar>nv\<bar> \<le> mv" "1 \<le> mv"
    by simp_all
  then have "\<bar>nv / mv\<bar> \<le> 1"
    by simp
  then have "\<bar>nv / mv * amplitude p\<bar> \<le> \<bar>amplitude p\<bar>"
    by (simp only: abs_mult mult_left_le_one_le abs_ge_zero)
  with b r show ?thesis
    by (simp add: finalHeight_def)
qed

lemma bakeTerrain_loop_Inr:
  assumes "bakeTerrain_loop L p i ps = Inr ps'"
  shows "ps' = take i ps @ map (\<lambda>v. displace v (the (finalHeight L p v))) (drop i ps)
         \<and> (\<forall>v\<in>set (drop i ps). finalHeight L p v \<noteq> None)"
  using assms
proof (induction L p i ps rule: bakeTerrain_loop.induct)
  case (1 L p i posAttr)
  show ?case
  proof (cases "i < length posAttr")
    case True
    from "1.prems" True obtain h where h: "finalHeight L p (posAttr ! i) = Some h"
      and r: "bakeTerrain_loop L p (Suc i) (posAttr[i := displace (posAttr ! i) h]) = Inr ps'"
      by (subst (asm) bakeTerrain_loop.simps) (auto simp: Let_def split: option.splits)
    from 1(1) [OF True refl h r] True h show ?thesis
      by (simp add: take_Suc_update Cons_nth_drop_Suc [symmetric])
  next
    case False
    with "1.prems" show ?thesis
      by (subst (asm) bakeTerrain_loop.simps) simp
  qed
qed

lemma bakeTerrain_loop_ok:
  assumes "\<forall>v\<in>set (drop i ps). finalHeight L p v \<noteq> None"
  shows "\<exists>ps'. bakeTerrain_loop L p i ps = Inr ps'"
  using assms
proof (induction L p i ps rule: bakeTerrain_loop.induct)
  case (1 L p i posAttr)
  show ?case
  proof (cases "i < length posAttr")
    case True
    then have d: "drop i posAttr = posAttr ! i # drop (Suc i) posAttr"
      by (simp add: Cons_nth_drop_Suc)
    with "1.prems" obtain h where h: "finalHeight L p (posAttr ! i) = Some h"
      by auto
    have "\<forall>v\<in>set (drop (Suc i) (posAttr[i := displace (posAttr ! i) h])).
            finalHeight L p v \<noteq> None"
      using "1.prems" d by simp
    from 1(1) [OF True refl h this] True h show ?thesis
      by (subst bakeTerrain_loop.simps) (simp add: Let_def)
  next
    case False
    then show ?thesis
      by (subst bakeTerrain_loop.simps) simp
  qed
qed

text \<open>
  Claim C4, amended. Assume that every noise sample lies in \<open>[-1, 1]\<close>, that
  \<open>params.persistence\<close> is not negative and that \<open>params.octaves\<close> is at least
  1. Then the height \<open>bakeTerrain\<close> computes for a vertex (the octave sum divided by
  the sum of the octave weights, times \<open>params.amplitude\<close>) has magnitude at most
  \<open>|params.amplitude|\<close>; the bake returns, and it changes the distance of every
  vertex from the origin by at most \<open>|params.amplitude|\<close>. The vertices of the welded
  geometry are among the displaced ones, as long as the weld keeps vertices it was given.
\<close>

theorem bakeTerrain_height_bounded:
  assumes "noise_bounded (noise3D L)"
    and "0 \<le> persistence p" and "1 \<le> octaves p"
    and "\<forall>g. set (position (mergeVertices L g)) \<subseteq> set (position g)"
  shows "\<exists>ps' planet'.
           bakeTerrain_loop L p 0 (position (geometry planet)) = Inr ps'
         \<and> bakeTerrain L planet (Some p) = Inr planet'
         \<and> length ps' = length (position (geometry planet))
         \<and> (\<forall>i<length ps'. \<exists>h.
               finalHeight L p (position (geometry planet) ! i) = Some h
             \<and> \<bar>h\<bar> \<le> \<bar>amplitude p\<bar>
             \<and> ps' ! i = displace (position (geometry planet) ! i) h
             \<and> \<bar>length_v (ps' ! i) - length_v (position (geometry planet) ! i)\<bar>
                 \<le> \<bar>amplitude p\<bar>)
         \<and> set (position (geometry planet')) \<subseteq> set ps'"
proof -
  let ?ps = "position (geometry planet)"
  have fh: "\<exists>h. finalHeight L p v = Some h \<and> \<bar>h\<bar> \<le> \<bar>amplitude p\<bar>" for v
    by (rule finalHeight_bounded [OF assms(1-3)])
  then have "\<forall>v\<in>set (drop 0 ?ps). finalHeight L p v \<noteq> None"
    by fastforce
  from bakeTerrain_loop_ok [OF this] obtain ps' where l: "bakeTerrain_loop L p 0 ?ps = Inr ps'"
    by blast
  from bakeTerrain_loop_Inr [OF l]
  have ps': "ps' = map (\<lambda>v. displace v (the (finalHeight L p v))) ?ps"
    by simp
  let ?planet' = "planet\<lparr>geometry := mergeVertices L (computeVertexNormals L
                    ((geometry planet)\<lparr>position := ps'\<rparr>)), flatShading := True\<rparr>"
  have b: "bakeTerrain L planet (Some p) = Inr ?planet'"
    using l by (simp add: bakeTerrain_def Let_def)
  have each: "\<exists>h. finalHeight L p (?ps ! i) = Some h \<and> \<bar>h\<bar> \<le> \<bar>amplitude p\<bar>
               \<and> ps' ! i = displace (?ps ! i) h
               \<and> \<bar>length_v (ps' ! i) - length_v (?ps ! i)\<bar> \<le> \<bar>amplitude p\<bar>"
    if "i < length ps'" for i
  proof -
    from fh obtain h where h: "finalHeight L p (?ps ! i) = Some h" "\<bar>h\<bar> \<le> \<bar>amplitude p\<bar>"
      by blast
    from that have "ps' ! i = displace (?ps ! i) h"
      by (simp add: ps' h)
    with h length_displace_abs [of "?ps ! i" h] show ?thesis
      by simp
  qed
  have w: "set (position (geometry ?planet')) \<subseteq> set ps'"
    using assms(4) [rule_format, of "computeVertexNormals L ((geometry planet)\<lparr>position := ps'\<rparr>)"]
    by (simp add: computeVertexNormals_def)
  from l b each w show ?thesis
    by (intro exI [of _ ps'] exI [of _ ?planet']) (simp add: ps')
qed

lemma flat_three_simps [simp]:
  "noise3D (flat_three c) = (\<lambda>a b d. c)"
  "mergeVertices (flat_three c) = (\<lambda>g. g)"
  "vertexNormals (flat_three c) = (\<lambda>ps ix. map normalize ps)"
  by (simp_all add: flat_three_def)

lemma step_three_simps [simp]:
  "noise3D step_three = (\<lambda>a b d. if a < 1 then 1 else - 1)"
  "mergeVertices step_three = (\<lambda>g. g)"
  "vertexNormals step_three = (\<lambda>ps ix. map normalize ps)"
  by (simp_all add: step_three_def)

lemma displace_axis: "a \<noteq> 0 \<Longrightarrow> displace (Vector3 a 0 0) h = Vector3 (a + a / \<bar>a\<bar> * h) 0 0"
  by (simp add: displace_def add_def multiplyScalar_def normalize_def divideScalar_def)

lemma finalHeight_alternating:
  "finalHeight step_three alternating_params (Vector3 10 0 0) = Some 12"
  by (simp add: finalHeight_def octave_loop.simps alternating_params_def)

text \<open>
  Claim C4 as stated, with the bound on the noise samples as its only assumption, fails
  for a negative persistence: the octave weights 1 and -0.5 sum to 0.5 while the octave
  sum reaches 1.5, so with amplitude 4 the height is 12 and the vertex at distance 10
  ends at distance 22.
\<close>

theorem bakeTerrain_height_counterexample:
  "noise_bounded (noise3D step_three)
   \<and> amplitude alternating_params = 4
   \<and> finalHeight step_three alternating_params (Vector3 10 0 0) = Some 12
   \<and> map_sum id (position \<circ> geometry) (bakeTerrain step_three axis_mesh (Some alternating_params))
       = Inr [Vector3 22 0 0]"
proof -
  have "noise_bounded (noise3D step_three)"
    by (simp add: noise_bounded_def)
  moreover have "amplitude alternating_params = 4"
    by (simp add: alternating_params_def)
  moreover have "bakeTerrain_loop step_three alternating_params 0 [Vector3 10 0 0]
                   = Inr [Vector3 22 0 0]"
    by (simp add: bakeTerrain_loop.simps finalHeight_alternating displace_axis)
  then have "map_sum id (position \<circ> geometry)
               (bakeTerrain step_three axis_mesh (Some alternating_params)) = Inr [Vector3 22 0 0]"
    by (simp add: bakeTerrain_def axis_mesh_def axis_geometry_def computeVertexNormals_def)
  ultimately show ?thesis
    using finalHeight_alternating by simp
qed

text \<open>
  The theorem at work: the default parameters on the one-vertex mesh, with a noise
  sampler that always returns 1.
\<close>

theorem bakeTerrain_height_bounded_witness:
  "noise_bounded (noise3D (flat_three 1))
   \<and> 0 \<le> persistence default_params \<and> 1 \<le> octaves default_params
   \<and> (\<exists>ps'. bakeTerrain_loop (flat_three 1) default_params 0 (position (geometry axis_mesh))
               = Inr ps'
          \<and> \<bar>length_v (ps' ! 0) - 10\<bar> \<le> 4)"
proof -
  have a: "noise_bounded (noise3D (flat_three 1))"
    by (simp add: noise_bounded_def)
  have b: "0 \<le> persistence default_params" and c: "1 \<le> octaves default_params"
    by (simp_all add: default_params_def)
  have d: "\<forall>g. set (position (mergeVertices (flat_three 1) g)) \<subseteq> set (position g)"
    by simp
  from bakeTerrain_height_bounded [OF a b c d, of axis_mesh]
  obtain ps' where l: "bakeTerrain_loop (flat_three 1) default_params 0
                         (position (geometry axis_mesh)) = Inr ps'"
    and n: "length ps' = length (position (geometry axis_mesh))"
    and e: "\<forall>i<length ps'. \<exists>h. \<bar>length_v (ps' ! i) - length_v (position (geometry axis_mesh) ! i)\<bar>
                \<le> \<bar>amplitude default_params\<bar>"
    by blast
  from n have "0 < length ps'"
    by (simp add: axis_mesh_def axis_geometry_def)
  with e have "\<bar>length_v (ps' ! 0) - 10\<bar> \<le> 4"
    by (auto simp: axis_mesh_def axis_geometry_def default_params_def)
  with a b c l show ?thesis
    by blast
qed

text \<open>
  With no octave the weight sum is zero, and the bake of a mesh that has a vertex leaves
  the finite numbers.
\<close>

lemma octave_loop_none: "octaves p \<le> oct \<Longrightarrow>
    octave_loop L p vertex oct noiseValue frequency amp maxValue = (noiseValue, maxValue)"
  by (subst octave_loop.simps) simp

lemma bakeTerrain_no_octaves:
  assumes "octaves p \<le> 0" and "position (geometry planet) \<noteq> []"
  shows "bakeTerrain L planet (Some p) = Inl NonFinite"
proof -
  have "finalHeight L p v = None" for v
    using assms(1) by (simp add: finalHeight_def octave_loop_none)
  with assms(2) show ?thesis
    by (simp add: bakeTerrain_def bakeTerrain_loop.simps [of _ _ 0] Let_def)
qed

text \<open>
  The bake with the settings object is the bake in which the octave loop never runs:
  it agrees with \<open>bakeTerrain\<close> on every parameter record without an octave.
\<close>

lemma bakeTerrain_settings_no_octaves:
  assumes "octaves p \<le> 0"
  shows "bakeTerrain_settings L planet s = bakeTerrain L planet (Some p)"
proof (cases "position (geometry planet) = []")
  case True
  have e: "(geometry planet)\<lparr>position := []\<rparr> = geometry planet"
    by (subst True [symmetric]) simp
  show ?thesis
    by (simp add: bakeTerrain_settings_def bakeTerrain_def bakeTerrain_loop.simps [of _ _ 0]
        Let_def True e)
next
  case False
  with bakeTerrain_no_octaves [OF assms False, of L] show ?thesis
    by (simp add: bakeTerrain_settings_def Let_def)
qed

lemma regenerate_NonFinite:
  assumes "position (geometry planet) \<noteq> []"
  shows "regenerate L s planet = Inl NonFinite"
    and "regenerate_twice L s planet = Inl NonFinite"
  using assms
  by (simp_all add: regenerate_twice_def regenerate_def bakeTerrain_settings_def Let_def)

text \<open>
  Claim C1 says that two invocations of \<open>regenerate\<close> in succession leave the same
  vertex positions, each bake starting from the unmodified base primitive. The code
  does not do that. \<open>regenerate\<close> hands the settings object, which has no noise
  field, to \<open>bakeTerrain\<close>: on the mesh with one vertex at distance 10, the first
  invocation already computes a height that is not a number and overwrites the
  vertex with it, and so does the pair of invocations. No positions are derived from
  the base primitive, of which the code keeps no copy.
\<close>

theorem regenerate_not_a_number:
  "position (geometry axis_mesh) = [Vector3 10 0 0]
   \<and> regenerate (flat_three 1) main_params axis_mesh = Inl NonFinite
   \<and> regenerate_twice (flat_three 1) main_params axis_mesh = Inl NonFinite"
proof -
  have p: "position (geometry axis_mesh) = [Vector3 10 0 0]"
    by (simp add: axis_mesh_def axis_geometry_def)
  then have "position (geometry axis_mesh) \<noteq> []"
    by simp
  from regenerate_NonFinite [OF this] p show ?thesis
    by simp
qed

section \<open>The main pipeline: simplification and asset loading\<close>

text \<open>
  Claim C6. When the simplification step fails, that is when \<open>modifier.modify\<close>
  throws on the welded geometry and the computed removal count,
  \<open>reduceMeshComplexity\<close> reports the failure and leaves the mesh as it was: its
  geometry is not replaced.
\<close>

theorem reduceMeshComplexity_failure_keeps_mesh:
  assumes "g = (if index (geometry m) = None then mergeVertices L (geometry m) else geometry m)"
    and "modify L g \<lfloor>real (length (position g)) * reductionRatio\<rfloor> = Inl e"
  shows "reduceMeshComplexity L m reductionRatio = (m, SimplificationFailed e)
         \<and> geometry (fst (reduceMeshComplexity L m reductionRatio)) = geometry m"
  using assms by (simp add: reduceMeshComplexity_def Let_def)

text \<open>
  The theorem at work: asked to remove the only vertex of the one-vertex mesh, the
  stand-in modifier fails and the mesh is returned unchanged.
\<close>

theorem reduceMeshComplexity_failure_keeps_mesh_witness:
  "modify (flat_three 0) (geometry axis_mesh) \<lfloor>real (length (position (geometry axis_mesh))) * 1\<rfloor>
     = Inl (SimplifyFailure ''no next vertex'')
   \<and> reduceMeshComplexity (flat_three 0) axis_mesh 1
     = (axis_mesh, SimplificationFailed (SimplifyFailure ''no next vertex''))"
proof -
  have g: "geometry axis_mesh = (if index (geometry axis_mesh) = None
             then mergeVertices (flat_three 0) (geometry axis_mesh) else geometry axis_mesh)"
    by simp
  have f: "modify (flat_three 0) (geometry axis_mesh)
             \<lfloor>real (length (position (geometry axis_mesh))) * 1\<rfloor>
           = Inl (SimplifyFailure ''no next vertex'')"
    by (simp add: flat_three_def axis_mesh_def axis_geometry_def)
  from reduceMeshComplexity_failure_keeps_mesh [OF g f] f show ?thesis
    by simp
qed

lemma promise_all_Inr: "promise_all ps = Inr rs \<longleftrightarrow> ps = map Inr rs"
proof (induction ps arbitrary: rs)
  case Nil
  then show ?case by auto
next
  case (Cons q ps)
  show ?case
  proof (cases q)
    case (Inl e)
    then show ?thesis by (cases rs) auto
  next
    case (Inr a)
    then have "promise_all (q # ps) = Inr rs \<longleftrightarrow> (\<exists>rs'. promise_all ps = Inr rs' \<and> rs = a # rs')"
      by (auto split: sum.splits)
    also have "\<dots> \<longleftrightarrow> (\<exists>rs'. ps = map Inr rs' \<and> rs = a # rs')"
      by (simp add: Cons.IH)
    also have "\<dots> \<longleftrightarrow> q # ps = map Inr rs"
      using Inr by (cases rs) auto
    finally show ?thesis .
  qed
qed

lemma promise_all_Inl: "promise_all ps = Inl e \<Longrightarrow> Inl e \<in> set ps"
proof (induction ps)
  case Nil
  then show ?case by simp
next
  case (Cons q ps)
  then show ?case
    by (cases q) (auto split: sum.splits)
qed

lemma dom_store:
  "dom (store loadedAssets rs) = dom loadedAssets \<union> {name. \<exists>a. Some (name, a) \<in> set rs}"
proof (induction rs arbitrary: loadedAssets)
  case Nil
  then show ?case by simp
next
  case (Cons r rs)
  show ?case
  proof (cases r)
    case None
    then show ?thesis by (simp add: Cons.IH)
  next
    case (Some e)
    obtain name a where "e = (name, a)" by (cases e) auto
    with Some show ?thesis by (auto simp: Cons.IH split: if_splits)
  qed
qed

lemma assetPromise_Inr:
  "assetPromise ld (name, url) = Inr r \<Longrightarrow> (\<exists>a. r = Some (name, a)) = recognised url"
  by (auto simp: assetPromise_def recognised_def split: if_splits sum.splits)

text \<open>
  Claim C5, amended. \<open>loadAssets\<close> waits for all its loads with \<open>Promise.all\<close>:
  it rejects, with the failure of one of the requested assets, as soon as one asset
  fails to load, and then returns no mapping. It resolves exactly when every
  requested asset with a recognised extension loads, and the keys of its mapping are
  then the names of exactly those assets; entries with another extension are skipped.
\<close>

theorem loadAssets_all_or_nothing:
  "case loadAssets ld assetsObj of
     Inl e \<Rightarrow> \<exists>entry\<in>set assetsObj. assetPromise ld entry = Inl e
   | Inr loadedAssets \<Rightarrow>
       (\<forall>entry\<in>set assetsObj. \<exists>r. assetPromise ld entry = Inr r)
       \<and> dom loadedAssets = {name. \<exists>url. (name, url) \<in> set assetsObj \<and> recognised url}"
proof (cases "promise_all (map (assetPromise ld) assetsObj)")
  case (Inl e)
  from promise_all_Inl [OF Inl] Inl show ?thesis
    by (auto simp: loadAssets_def)
next
  case (Inr rs)
  then have m: "map (assetPromise ld) assetsObj = map Inr rs"
    by (simp add: promise_all_Inr)
  then have all: "\<forall>entry\<in>set assetsObj. \<exists>r. assetPromise ld entry = Inr r"
    by (metis (no_types, lifting) in_set_conv_nth length_map nth_map)
  have "{name. \<exists>a. Some (name, a) \<in> set rs}
          = {name. \<exists>url. (name, url) \<in> set assetsObj \<and> recognised url}" (is "?A = ?B")
  proof (intro set_eqI iffI; clarify)
    fix name a
    assume "Some (name, a) \<in> set rs"
    then have "Inr (Some (name, a)) \<in> set (map (assetPromise ld) assetsObj)"
      by (simp add: m)
    then obtain n url where e: "(n, url) \<in> set assetsObj"
      and p: "assetPromise ld (n, url) = Inr (Some (name, a))"
      by auto
    from p have "n = name"
      by (auto simp: assetPromise_def split: if_splits sum.splits)
    with e p assetPromise_Inr [OF p] show "\<exists>url. (name, url) \<in> set assetsObj \<and> recognised url"
      by auto
  next
    fix name url
    assume e: "(name, url) \<in> set assetsObj" and r: "recognised url"
    from all e obtain res where p: "assetPromise ld (name, url) = Inr res"
      by blast
    from assetPromise_Inr [OF p] r obtain a where "res = Some (name, a)"
      by blast
    with p e have "Inr (Some (name, a)) \<in> set (map (assetPromise ld) assetsObj)"
      by force
    then show "\<exists>a. Some (name, a) \<in> set rs"
      by (auto simp: m)
  qed
  with all Inr show ?thesis
    by (simp add: loadAssets_def dom_store)
qed

lemma endsWith_eval [simp]:
  "endsWith ''pine.glb'' ''.glb''" "endsWith ''tree.glb'' ''.glb''"
  "endsWith ''sky.png'' ''.png''" "\<not> endsWith ''sky.png'' ''.glb''" "\<not> endsWith ''sky.png'' ''.gltf''"
  "\<not> recognised ''notes.txt''"
  by (simp_all add: endsWith_def recognised_def)

text \<open>
  Claim C5 as stated fails: of two requested models one loads and the other does not,
  and \<open>loadAssets\<close> rejects instead of resolving with the one that loaded.
\<close>

theorem loadAssets_counterexample:
  "assetPromise flaky_loaders (''tree'', ''tree.glb'')
     = Inr (Some (''tree'', SceneAsset (Object3D True True True [])))
   \<and> loadAssets flaky_loaders [(''tree'', ''tree.glb''), (''pine'', ''pine.glb'')]
     = Inl (LoadFailure ''pine.glb'')"
  by (simp add: loadAssets_def assetPromise_def flaky_loaders_def)

text \<open>
  The theorem at work: a model, a texture and a text file are requested, all loads
  succeed, and the mapping holds the model and the texture.
\<close>

theorem loadAssets_all_or_nothing_witness:
  "\<exists>loadedAssets.
     loadAssets flaky_loaders [(''tree'', ''tree.glb''), (''sky'', ''sky.png''), (''notes'', ''notes.txt'')]
       = Inr loadedAssets
     \<and> ''tree'' \<in> dom loadedAssets \<and> ''sky'' \<in> dom loadedAssets \<and> ''notes'' \<notin> dom loadedAssets"
proof -
  let ?es = "[(''tree'', ''tree.glb''), (''sky'', ''sky.png''), (''notes'', ''notes.txt'')]"
  have "\<exists>m. loadAssets flaky_loaders ?es = Inr m"
    by (simp add: loadAssets_def assetPromise_def flaky_loaders_def recognised_def[symmetric])
  then obtain m where m: "loadAssets flaky_loaders ?es = Inr m"
    by blast
  from loadAssets_all_or_nothing [where ld = flaky_loaders and assetsObj = ?es] m
  have "dom m = {name. \<exists>url. (name, url) \<in> set ?es \<and> recognised url}"
    by simp
  moreover have "recognised ''tree.glb''" "recognised ''sky.png''"
    by (simp_all add: recognised_def)
  ultimately have "''tree'' \<in> dom m \<and> ''sky'' \<in> dom m \<and> ''notes'' \<notin> dom m"
    by auto
  with m show ?thesis
    by blast
qed

section \<open>The main pipeline: cloner\<close>

lemma unit_range_round_robin: "0 < n \<Longrightarrow> unit_range (round_robin n)"
  by (simp add: unit_range_def round_robin_def)

lemma fair_round_robin:
  assumes "0 < n"
  shows "fair (round_robin n) n"
  unfolding fair_def
proof (intro allI impI)
  fix k j :: nat
  assume j: "j < n"
  have "k \<le> k * n + j"
    using assms by (cases n) auto
  moreover have "\<lfloor>round_robin n (k * n + j) * real n\<rfloor> = int j"
    using assms j by (simp add: round_robin_def)
  ultimately show "\<exists>k'\<ge>k. \<lfloor>round_robin n k' * real n\<rfloor> = int j"
    by blast
qed

text \<open>
  The rejection loop returns as soon as a fresh index is among the draws to come.
\<close>

lemma draw_vIndex_fresh:
  assumes "\<lfloor>random (k + n) * real tv\<rfloor> \<notin> used"
  shows "\<exists>k'\<ge>k. draw_vIndex random tv used k = Some (\<lfloor>random k' * real tv\<rfloor>, Suc k')
           \<and> \<lfloor>random k' * real tv\<rfloor> \<notin> used"
  using assms
proof (induction n arbitrary: k)
  case 0
  then show ?case
    by (subst draw_vIndex.simps) auto
next
  case (Suc n)
  show ?case
  proof (cases "\<lfloor>random k * real tv\<rfloor> \<in> used")
    case True
    from Suc.prems have "\<lfloor>random (Suc k + n) * real tv\<rfloor> \<notin> used"
      by simp
    from Suc.IH [OF this] obtain k' where "Suc k \<le> k'"
      and "draw_vIndex random tv used (Suc k) = Some (\<lfloor>random k' * real tv\<rfloor>, Suc k')"
      and "\<lfloor>random k' * real tv\<rfloor> \<notin> used"
      by blast
    with True show ?thesis
      by (subst draw_vIndex.simps) (auto intro: exI [of _ k'])
  next
    case False
    then show ?thesis
      by (subst draw_vIndex.simps) auto
  qed
qed

text \<open>
  When the rejection loop returns, the index it returns is fresh; when no fresh index
  is to come, it does not return.
\<close>

lemma draw_vIndex_Some:
  assumes "draw_vIndex random tv used k = Some y"
  shows "fst y \<notin> used \<and> k < snd y \<and> fst y = \<lfloor>random (snd y - 1) * real tv\<rfloor>"
proof (rule draw_vIndex.raw_induct
    [where P = "\<lambda>random tv used k y.
        fst y \<notin> used \<and> k < snd y \<and> fst y = \<lfloor>random (snd y - 1) * real tv\<rfloor>",
     OF _ assms])
  fix draw :: "(nat \<Rightarrow> real) \<Rightarrow> nat \<Rightarrow> int set \<Rightarrow> nat \<Rightarrow> (int \<times> nat) option"
  fix random tv used k y
  assume IH: "\<And>random tv used k y. draw random tv used k = Some y \<Longrightarrow>
      fst y \<notin> used \<and> k < snd y \<and> fst y = \<lfloor>random (snd y - 1) * real tv\<rfloor>"
  assume step: "(if \<lfloor>random k * real tv\<rfloor> \<in> used then draw random tv used (Suc k)
                 else Some (\<lfloor>random k * real tv\<rfloor>, Suc k)) = Some y"
  show "fst y \<notin> used \<and> k < snd y \<and> fst y = \<lfloor>random (snd y - 1) * real tv\<rfloor>"
  proof (cases "\<lfloor>random k * real tv\<rfloor> \<in> used")
    case True
    with step have "draw random tv used (Suc k) = Some y"
      by simp
    from IH [OF this] show ?thesis
      by auto
  next
    case False
    with step have "y = (\<lfloor>random k * real tv\<rfloor>, Suc k)"
      by simp
    with False show ?thesis
      by simp
  qed
qed

lemma draw_vIndex_None:
  assumes "\<forall>k'\<ge>k. \<lfloor>random k' * real tv\<rfloor> \<in> used"
  shows "draw_vIndex random tv used k = None"
proof (cases "draw_vIndex random tv used k")
  case None
  then show ?thesis .
next
  case (Some y)
  from draw_vIndex_Some [OF Some]
  have f: "\<lfloor>random (snd y - 1) * real tv\<rfloor> \<notin> used" and l: "k < snd y"
    by auto
  from l have "k \<le> snd y - 1"
    by simp
  with assms f show ?thesis
    by blast
qed

lemma floor_unit_index:
  assumes "0 \<le> r" and "r < 1" and "0 < n"
  shows "0 \<le> \<lfloor>r * real n\<rfloor>" and "\<lfloor>r * real n\<rfloor> < int n"
proof -
  show "0 \<le> \<lfloor>r * real n\<rfloor>"
    using assms by simp
  have "r * real n < real n"
    using assms by simp
  then show "\<lfloor>r * real n\<rfloor> < int n"
    by (simp add: floor_less_iff)
qed

lemma place_ok:
  assumes "unit_range random" and "prefabs \<noteq> []"
  shows "\<exists>c k'. place random planet prefabs size' scaleRand rotationRand positionRand v k
                   = (Inr c, k') \<and> vIndex c = v"
proof -
  from assms(1) have r: "0 \<le> random k" "random k < 1"
    by (simp_all add: unit_range_def)
  from assms(2) have n: "0 < length prefabs"
    by simp
  from floor_unit_index [OF r n] show ?thesis
    by (simp add: place_def Let_def)
qed

lemma fresh_index_exists:
  assumes "used \<subseteq> {0..<int tv}" and "card used < tv"
  shows "\<exists>j<tv. int j \<notin> used"
proof -
  have "used \<noteq> {0..<int tv}"
    using assms(2) by auto
  with assms(1) obtain x where x: "x \<in> {0..<int tv}" "x \<notin> used"
    by blast
  then have "nat x < tv" "int (nat x) = x"
    by auto
  with x show ?thesis
    by metis
qed

text \<open>
  The placement loop, with its invariant: the used indices are those of the clones made
  so far, pairwise distinct and inside the vertex buffer.
\<close>

lemma cloner_loop_ok:
  fixes clones :: "'p clone list"
  assumes ur: "unit_range random" and fr: "fair random tv"
    and tv: "tv = length (position (geometry planet))"
    and pf: "prefabs \<noteq> []"
    and ac: "actualCount \<le> int tv"
    and i: "int (length clones) = i" "i \<le> actualCount"
    and used: "usedIndices = set (map vIndex clones)" "distinct (map vIndex clones)"
      "usedIndices \<subseteq> {0..<int tv}"
  shows "\<exists>clones' w'.
           cloner_loop random planet prefabs size' scaleRand rotationRand positionRand
             actualCount i usedIndices clones w = Some (Inr clones', w')
         \<and> int (length clones') = actualCount
         \<and> distinct (map vIndex clones')
         \<and> set (map vIndex clones') \<subseteq> {0..<int tv}
         \<and> (\<exists>new. clones' = clones @ new \<and> scene w' = scene w @ new)"
  using i used
proof (induction "nat (actualCount - i)" arbitrary: i usedIndices clones w)
  case 0
  then have "\<not> i < actualCount" "i = actualCount"
    by auto
  with 0 show ?case
    by (subst cloner_loop.simps) auto
next
  case (Suc n)
  from Suc.hyps(2) have lt: "i < actualCount"
    by auto
  have "card usedIndices = length clones"
    using distinct_card [OF Suc.prems(4)] Suc.prems(3) by simp
  with lt Suc.prems(1) ac have "card usedIndices < tv"
    by auto
  from fresh_index_exists [OF Suc.prems(5) this] obtain j where j: "j < tv" "int j \<notin> usedIndices"
    by blast
  from fr j(1) obtain k1 where k1: "cursor w \<le> k1" "\<lfloor>random k1 * real tv\<rfloor> = int j"
    unfolding fair_def by blast
  then have "\<lfloor>random (cursor w + (k1 - cursor w)) * real tv\<rfloor> \<notin> usedIndices"
    using j(2) by simp
  from draw_vIndex_fresh [of random "cursor w" "k1 - cursor w" tv usedIndices, OF this] obtain k2
    where d: "draw_vIndex random tv usedIndices (cursor w)
                = Some (\<lfloor>random k2 * real tv\<rfloor>, Suc k2)"
      and fresh: "\<lfloor>random k2 * real tv\<rfloor> \<notin> usedIndices"
    by blast
  let ?v = "\<lfloor>random k2 * real tv\<rfloor>"
  from ur have "0 \<le> random k2" "random k2 < 1"
    by (simp_all add: unit_range_def)
  from floor_unit_index [OF this] j(1) have v: "?v \<in> {0..<int tv}"
    by simp
  from place_ok [OF ur pf, of planet size' scaleRand rotationRand positionRand ?v "Suc k2"]
  obtain c k3 where pl: "place random planet prefabs size' scaleRand rotationRand positionRand
                           ?v (Suc k2) = (Inr c, k3)"
    and c: "vIndex c = ?v"
    by blast
  let ?w = "w\<lparr>scene := scene w @ [c], cursor := k3\<rparr>"
  have step: "cloner_loop random planet prefabs size' scaleRand rotationRand positionRand
                actualCount i usedIndices clones w
              = cloner_loop random planet prefabs size' scaleRand rotationRand positionRand
                  actualCount (i + 1) (insert ?v usedIndices) (clones @ [c]) ?w"
    using lt d pl by (subst cloner_loop.simps) (simp add: tv [symmetric])
  have n: "n = nat (actualCount - (i + 1))"
    using Suc.hyps(2) by simp
  have i1: "int (length (clones @ [c])) = i + 1" "i + 1 \<le> actualCount"
    using Suc.prems(1) lt by simp_all
  have u1: "insert ?v usedIndices = set (map vIndex (clones @ [c]))"
    using Suc.prems(3) c by simp
  have u2: "distinct (map vIndex (clones @ [c]))"
    using Suc.prems(3,4) c fresh by simp
  have u3: "insert ?v usedIndices \<subseteq> {0..<int tv}"
    using Suc.prems(5) v by simp
  from Suc.hyps(1) [OF n i1 u1 u2 u3, of ?w]
  obtain clones' w' new
    where r: "cloner_loop random planet prefabs size' scaleRand rotationRand positionRand
                actualCount (i + 1) (insert ?v usedIndices) (clones @ [c]) ?w
              = Some (Inr clones', w')"
      and l: "int (length clones') = actualCount"
      and dd: "distinct (map vIndex clones')"
      and ss: "set (map vIndex clones') \<subseteq> {0..<int tv}"
      and nw: "clones' = (clones @ [c]) @ new" "scene w' = scene ?w @ new"
    by blast
  from nw have "clones' = clones @ (c # new) \<and> scene w' = scene w @ (c # new)"
    by simp
  with r l dd ss step show ?case
    by metis
qed

text \<open>
  Without fairness the call need not return: on a generator that only yields 0, the
  second instance is never placed.
\<close>

lemma cloner_stuck:
  "cloner (\<lambda>k. 0) tri_mesh 2 [''tree''] empty_world 1 False False False = None"
proof -
  have 1: "draw_vIndex (\<lambda>k. 0) 3 {} 0 = Some (0, Suc 0)"
    by (subst draw_vIndex.simps) simp
  have 2: "draw_vIndex (\<lambda>k. 0) 3 {0} k = None" for k
    by (rule draw_vIndex_None) simp
  have 3: "\<exists>c. place (\<lambda>k. 0) tri_mesh [''tree''] 1 False False False 0 k = (Inr c, Suc k)" for k
    by (simp add: place_def Let_def)
  have l: "length (position (geometry tri_mesh)) = 3"
    by (simp add: tri_mesh_def)
  from 3 [of "Suc 0"] obtain c
    where c: "place (\<lambda>k. 0) tri_mesh [''tree''] 1 False False False 0 (Suc 0) = (Inr c, Suc (Suc 0))"
    by blast
  show ?thesis
    by (simp add: cloner_def l empty_world_def cloner_loop.simps [of _ _ _ _ _ _ _ _ 0]
        cloner_loop.simps [of _ _ _ _ _ _ _ _ 1] 1 2 c)
qed

text \<open>
  Claim C2, amended. For every mesh, every non-empty prefab list and every requested
  count \<open>N \<ge> 0\<close>, \<open>cloner\<close> returns exactly \<open>min(N, vertexCount)\<close>
  instances, placed at pairwise distinct vertex indices of the mesh, and adds exactly
  those to the scene; this on every sequence of \<open>Math.random\<close> values in
  \<open>[0, 1)\<close> in which each vertex index keeps turning up, so that the rejection loop
  ends. (A negative \<open>N\<close> yields no instance: claim C9.)
\<close>

theorem cloner_distinct_vertices:
  assumes "prefabs \<noteq> []" and "0 \<le> count"
    and "unit_range random" and "fair random (length (position (geometry planet)))"
  shows "\<exists>clones w'.
           cloner random planet count prefabs w size' scaleRand rotationRand positionRand
             = Some (Inr clones, w')
         \<and> int (length clones) = min count (int (length (position (geometry planet))))
         \<and> distinct (map vIndex clones)
         \<and> (\<forall>c\<in>set clones. 0 \<le> vIndex c \<and> vIndex c < int (length (position (geometry planet))))
         \<and> scene w' = scene w @ clones"
proof -
  let ?tv = "length (position (geometry planet))"
  let ?ac = "min count (int ?tv)"
  have "\<exists>clones' w'.
           cloner_loop random planet prefabs size' scaleRand rotationRand positionRand
             ?ac 0 {} [] w = Some (Inr clones', w')
         \<and> int (length clones') = ?ac
         \<and> distinct (map vIndex clones')
         \<and> set (map vIndex clones') \<subseteq> {0..<int ?tv}
         \<and> (\<exists>new. clones' = [] @ new \<and> scene w' = scene w @ new)"
    using assms(2) by (intro cloner_loop_ok [OF assms(3,4) refl assms(1)]) simp_all
  then obtain clones' w' where
    "cloner_loop random planet prefabs size' scaleRand rotationRand positionRand
       ?ac 0 {} [] w = Some (Inr clones', w')"
    "int (length clones') = ?ac" "distinct (map vIndex clones')"
    "set (map vIndex clones') \<subseteq> {0..<int ?tv}" "scene w' = scene w @ clones'"
    by auto
  then show ?thesis
    by (intro exI [of _ clones'] exI [of _ w']) (auto simp: cloner_def Let_def)
qed

text \<open>
  The theorem at work: five instances requested on the mesh with three vertices, three
  placed.
\<close>

theorem cloner_distinct_vertices_witness:
  "[''tree''] \<noteq> [] \<and> (0::int) \<le> 5 \<and> unit_range (round_robin 3)
   \<and> fair (round_robin 3) (length (position (geometry tri_mesh)))
   \<and> (\<exists>clones w'.
         cloner (round_robin 3) tri_mesh 5 [''tree''] empty_world 1 True True True
           = Some (Inr clones, w')
       \<and> length clones = 3 \<and> distinct (map vIndex clones) \<and> scene w' = clones)"
proof -
  have l: "length (position (geometry tri_mesh)) = 3"
    by (simp add: tri_mesh_def)
  have u: "unit_range (round_robin 3)"
    by (simp add: unit_range_round_robin)
  have f: "fair (round_robin 3) (length (position (geometry tri_mesh)))"
    by (simp add: l fair_round_robin)
  have p: "[''tree''] \<noteq> []" and c: "(0::int) \<le> 5"
    by simp_all
  from cloner_distinct_vertices [OF p c u f, of empty_world 1 True True True]
  obtain clones w' where
    "cloner (round_robin 3) tri_mesh 5 [''tree''] empty_world 1 True True True
       = Some (Inr clones, w')"
    "int (length clones) = min 5 (int (length (position (geometry tri_mesh))))"
    "distinct (map vIndex clones)" "scene w' = scene empty_world @ clones"
    by blast
  then have "cloner (round_robin 3) tri_mesh 5 [''tree''] empty_world 1 True True True
               = Some (Inr clones, w')
             \<and> length clones = 3 \<and> distinct (map vIndex clones) \<and> scene w' = clones"
    by (simp add: l empty_world_def)
  then have "\<exists>clones w'.
         cloner (round_robin 3) tri_mesh 5 [''tree''] empty_world 1 True True True
           = Some (Inr clones, w')
       \<and> length clones = 3 \<and> distinct (map vIndex clones) \<and> scene w' = clones"
    by (intro exI [of _ clones] exI [of _ w'])
  with u f show ?thesis
    by simp
qed

text \<open>
  Claim C2 as stated, for every requested count, fails for \<open>N = -1\<close>: no instance
  is returned, and \<open>min(N, vertexCount)\<close> is \<open>-1\<close>.
\<close>

theorem cloner_negative_count_counterexample:
  "cloner (round_robin 3) tri_mesh (- 1) [''tree''] empty_world 1 False False False
     = Some (Inr [], empty_world)
   \<and> int (length ([] :: string clone list)) \<noteq> min (- 1) (int (length (position (geometry tri_mesh))))"
  by (simp add: cloner_def cloner_loop.simps tri_mesh_def)

text \<open>
  Claim C7. With an empty prefab array, a positive count and a mesh with at least one
  vertex, \<open>cloner\<close> aborts in its first iteration: picking a prefab yields
  \<open>undefined\<close>, and cloning it raises a \<open>TypeError\<close>. No clone list is
  returned and the scene is as before; only two random numbers have been drawn.
\<close>

theorem cloner_empty_prefabs_aborts:
  assumes "prefabs = []" and "0 < count" and "0 < length (position (geometry planet))"
  shows "cloner random planet count prefabs w size' scaleRand rotationRand positionRand
           = Some (Inl TypeError, w\<lparr>cursor := cursor w + 2\<rparr>)
         \<and> scene (w\<lparr>cursor := cursor w + 2\<rparr>) = scene w"
proof -
  have d: "draw_vIndex random (length (position (geometry planet))) {} (cursor w)
             = Some (\<lfloor>random (cursor w) * real (length (position (geometry planet)))\<rfloor>,
                     Suc (cursor w))"
    by (subst draw_vIndex.simps) simp
  have p: "place random planet [] size' scaleRand rotationRand positionRand v k
             = (Inl TypeError, Suc k)" for v k
    by (simp add: place_def)
  show ?thesis
    using assms by (simp add: cloner_def Let_def cloner_loop.simps [of _ _ _ _ _ _ _ _ 0] d p)
qed

text \<open>The theorem at work on the mesh with three vertices.\<close>

theorem cloner_empty_prefabs_aborts_witness:
  "(0::int) < 5 \<and> 0 < length (position (geometry tri_mesh))
   \<and> cloner (round_robin 3) tri_mesh 5 ([] :: string list) empty_world 1 True True True
       = Some (Inl TypeError, \<lparr>scene = [], cursor = 2\<rparr>)"
  using cloner_empty_prefabs_aborts [of "[] :: string list" 5 tri_mesh "round_robin 3"
      empty_world 1 True True True]
  by (simp add: tri_mesh_def empty_world_def)

text \<open>
  Claim C9. With a requested count of zero or less, \<open>cloner\<close> raises no error,
  returns the empty list and leaves the scene (and the random generator) as they were.
\<close>

theorem cloner_nonpositive_count_places_nothing:
  assumes "count \<le> 0"
  shows "cloner random planet count prefabs w size' scaleRand rotationRand positionRand
           = Some (Inr [], w)"
  using assms by (simp add: cloner_def Let_def cloner_loop.simps [of _ _ _ _ _ _ _ _ 0])

text \<open>The theorem at work, for the counts \<open>-3\<close> (with no prefab at all) and 0.\<close>

theorem cloner_nonpositive_count_places_nothing_witness:
  "(- 3::int) \<le> 0
   \<and> cloner (round_robin 3) tri_mesh (- 3) ([] :: string list) empty_world 1 True True True
       = Some (Inr [], empty_world)
   \<and> cloner (round_robin 3) tri_mesh 0 [''tree''] empty_world 1 False False False
       = Some (Inr [], empty_world)"
  using cloner_nonpositive_count_places_nothing [of "- 3" "round_robin 3" tri_mesh
      "[] :: string list" empty_world 1 True True True]
    cloner_nonpositive_count_places_nothing [of 0 "round_robin 3" tri_mesh
      "[''tree'']" empty_world 1 False False False]
  by simp

end
